theory Spec2Isabelle
  imports Main
begin

section \<open>Data model of \<open>ytb1.py\<close>\<close>

text \<open>
  The extraction library hands the program untyped dictionaries. A value stored under a
  key is \<open>None\<close>, an integer or a string; a key may also be absent.
\<close>

datatype pyval = PyNone | PyInt int | PyStr string

text \<open>
  One entry of \<open>info['formats']\<close>. Each field holds what the source reads from the
  dictionary:
  \<^item> \<open>vcodec\<close> is \<open>f.get('vcodec')\<close>: \<open>None\<close> when the key is absent or null;
  \<^item> \<open>height\<close> is \<open>None\<close> when the key is absent (the source then substitutes the
    string \<open>'unknown'\<close>) and \<open>Some v\<close> when the key is present with value \<open>v\<close>;
  \<^item> \<open>filesize\<close> is \<open>f.get('filesize')\<close>: \<open>None\<close> when the key is absent or null.
\<close>

record fmt =
  vcodec :: "string option"
  height :: "pyval option"
  filesize :: "int option"

text \<open>The metadata dictionary; \<open>formats\<close> is \<open>None\<close> when the key is absent.\<close>

record video_info =
  formats :: "fmt list option"

subsection \<open>Dictionaries in insertion order\<close>

text \<open>
  A Python \<open>dict\<close> iterates in insertion order, and the program depends on that order
  (\<open>list(formats.items())[:3]\<close>), so a dictionary is an association list. Assigning to a key
  that is present replaces its value in place; a new key goes to the end.
\<close>

fun dict_set :: "('k \<times> 'v) list \<Rightarrow> 'k \<Rightarrow> 'v \<Rightarrow> ('k \<times> 'v) list" where
  "dict_set [] k v = [(k, v)]"
| "dict_set ((k', v') # d) k v =
     (if k' = k then (k, v) # d else (k', v') # dict_set d k v)"

text \<open>\<open>dict(items)\<close>: the pairs are assigned one after the other.\<close>

definition py_dict :: "('k \<times> 'v) list \<Rightarrow> ('k \<times> 'v) list" where
  "py_dict items = foldl (\<lambda>d item. dict_set d (fst item) (snd item)) [] items"

section \<open>\<open>YouTubeDownloader.get_available_formats\<close>\<close>

text \<open>\<open>f.get('vcodec') != 'none'\<close>\<close>

definition is_video :: "fmt \<Rightarrow> bool" where
  "is_video f = (vcodec f \<noteq> Some ''none'')"

text \<open>\<open>f.get('height', 'unknown')\<close>\<close>

definition get_height :: "fmt \<Rightarrow> pyval" where
  "get_height f = (case height f of None \<Rightarrow> PyStr ''unknown'' | Some v \<Rightarrow> v)"

text \<open>\<open>f.get('filesize', 0) or 0\<close>\<close>

definition size_or_0 :: "fmt \<Rightarrow> int" where
  "size_or_0 f = (case filesize f of None \<Rightarrow> 0 | Some n \<Rightarrow> n)"

text \<open>\<open>unique_resolutions.get(res, {}).get('filesize', 0) or 0\<close>\<close>

definition existing_size :: "(pyval \<times> fmt) list \<Rightarrow> pyval \<Rightarrow> int" where
  "existing_size d res = (case map_of d res of None \<Rightarrow> 0 | Some g \<Rightarrow> size_or_0 g)"

text \<open>The body of the loop over \<open>formats\<close>.\<close>

definition add_format :: "(pyval \<times> fmt) list \<Rightarrow> fmt \<Rightarrow> (pyval \<times> fmt) list" where
  "add_format d f =
     (if is_video f then
        (let res = get_height f;
             current_size = size_or_0 f;
             existing = existing_size d res
         in if map_of d res = None \<or> current_size > existing
            then dict_set d res f else d)
      else d)"

definition unique_resolutions :: "fmt list \<Rightarrow> (pyval \<times> fmt) list" where
  "unique_resolutions fs = foldl add_format [] fs"

text \<open>The sort key \<open>item[0] if isinstance(item[0], int) else 0\<close>.\<close>

definition sort_height :: "pyval \<Rightarrow> int" where
  "sort_height k = (case k of PyInt n \<Rightarrow> n | _ \<Rightarrow> 0)"

text \<open>
  \<open>sorted(items, key=..., reverse=True)\<close> is stable: items with equal keys keep their
  order. That is the stable insertion sort on the negated key.
\<close>

definition sorted_reverse :: "(pyval \<times> fmt) list \<Rightarrow> (pyval \<times> fmt) list" where
  "sorted_reverse items = sort_key (\<lambda>item. - sort_height (fst item)) items"

text \<open>\<open>info.get('formats', [])\<close>\<close>

definition get_formats :: "video_info \<Rightarrow> fmt list" where
  "get_formats info = (case formats info of None \<Rightarrow> [] | Some l \<Rightarrow> l)"

definition get_available_formats :: "video_info \<Rightarrow> (pyval \<times> fmt) list" where
  "get_available_formats info =
     py_dict (sorted_reverse (unique_resolutions (get_formats info)))"

text \<open>
  What the reduction is to achieve for the entry \<open>g\<close> kept under the height \<open>r\<close>: it is
  a video candidate of the list with that height, every same-height video candidate
  before it is strictly smaller, and none after it is larger.
\<close>

definition first_largest :: "fmt list \<Rightarrow> pyval \<Rightarrow> fmt \<Rightarrow> bool" where
  "first_largest fs r g =
     (is_video g \<and> get_height g = r \<and>
      (\<exists>pre post. fs = pre @ g # post \<and>
         (\<forall>h \<in> set pre. is_video h \<and> get_height h = r \<longrightarrow> size_or_0 h < size_or_0 g) \<and>
         (\<forall>h \<in> set post. is_video h \<and> get_height h = r \<longrightarrow> size_or_0 h \<le> size_or_0 g)))"

text \<open>The invariant of the loop after the candidates \<open>fs\<close>.\<close>

definition resolutions_inv :: "fmt list \<Rightarrow> (pyval \<times> fmt) list \<Rightarrow> bool" where
  "resolutions_inv fs d =
     (distinct (map fst d) \<and>
      (\<forall>(r, g) \<in> set d. first_largest fs r g) \<and>
      (\<forall>h \<in> set fs. is_video h \<longrightarrow> get_height h \<in> fst ` set d))"

section \<open>Rendering values as text\<close>

text \<open>
  Strings are byte strings: a character outside ASCII is written as its UTF-8 bytes.
  \<open>str_int\<close> is Python's \<open>str\<close> on an integer.
\<close>

definition digit_char :: "nat \<Rightarrow> char" where
  "digit_char n = ''0123456789'' ! n"

fun str_nat :: "nat \<Rightarrow> string" where
  "str_nat n =
     (if n < 10 then [digit_char n] else str_nat (n div 10) @ [digit_char (n mod 10)])"

declare str_nat.simps [simp del]

definition str_int :: "int \<Rightarrow> string" where
  "str_int i = (if i < 0 then CHR ''-'' # str_nat (nat (- i)) else str_nat (nat i))"

text \<open>What an f-string writes for a dictionary key: \<open>{res}\<close>.\<close>

definition str_pyval :: "pyval \<Rightarrow> string" where
  "str_pyval v = (case v of PyNone \<Rightarrow> ''None'' | PyInt n \<Rightarrow> str_int n | PyStr s \<Rightarrow> s)"

text \<open>
  \<open>f"{round(file_size/(1024*1024), 1)}"\<close>. The division is a floating-point one, but the
  divisor is \<open>2^20\<close>: for a size of magnitude below \<open>2^53\<close> the quotient is exact in
  binary64, \<open>round(x, 1)\<close> rounds the exact value to the nearest tenth (a tie goes to the
  even tenth), and the shortest representation of the result is a sign for a negative
  size, the integer part, a point and one digit. On that range the text is computed here
  with integers. From \<open>2^53\<close> on the quotient is rounded and large results are written
  with an exponent: there this definition is not a model of the source, and every
  statement about it below is limited to sizes under \<open>2^53\<close>.
\<close>

definition round_half_even :: "int \<Rightarrow> int \<Rightarrow> int" where
  "round_half_even a b =
     (let d = a div b; r = a mod b
      in if 2 * r < b then d
         else if 2 * r > b then d + 1
         else if even d then d else d + 1)"

definition tenths_of_mb :: "int \<Rightarrow> int" where
  "tenths_of_mb file_size = round_half_even (10 * file_size) (1024 * 1024)"

definition tenths_text :: "int \<Rightarrow> string" where
  "tenths_text q = str_int (q div 10) @ ''.'' @ str_int (q mod 10)"

definition size_mb :: "int \<Rightarrow> string" where
  "size_mb file_size =
     (if file_size < 0 then CHR ''-'' # tenths_text (tenths_of_mb (- file_size))
      else tenths_text (tenths_of_mb file_size))"

section \<open>\<open>TelegramBot.handle_message\<close>: the quality menu\<close>

record button =
  button_text :: string
  callback_data :: string

text \<open>\<open>f" ({round(file_size/(1024*1024), 1)}MB)" if file_size else ""\<close>\<close>

definition size_str :: "int option \<Rightarrow> string" where
  "size_str file_size =
     (case file_size of
        None \<Rightarrow> []
      | Some n \<Rightarrow> if n \<noteq> 0 then '' ('' @ size_mb n @ ''MB)'' else [])"

text \<open>The payload of a button, \<open>f"dl_{res}_{url}"\<close>.\<close>

definition payload :: "string \<Rightarrow> string \<Rightarrow> string" where
  "payload quality url = ''dl_'' @ quality @ ''_'' @ url"

text \<open>One pass of the loop at lines 163 to 171: the row appended for \<open>(res, fmt)\<close>.\<close>

definition video_row :: "string \<Rightarrow> pyval \<times> fmt \<Rightarrow> button list" where
  "video_row url item =
     (let res = fst item;
          file_size = filesize (snd item)
      in [\<lparr>button_text = str_pyval res @ ''p'' @ size_str file_size,
           callback_data = payload (str_pyval res) url\<rparr>])"

text \<open>The label of the audio button: a musical note (U+1F3B5) and the fixed text.\<close>

definition audio_label :: string where
  "audio_label = [CHR 0xF0, CHR 0x9F, CHR 0x8E, CHR 0xB5] @ '' Audio Only (MP3)''"

definition audio_row :: "string \<Rightarrow> button list" where
  "audio_row url = [\<lparr>button_text = audio_label, callback_data = payload ''audio'' url\<rparr>]"

text \<open>Lines 161 to 179: the rows for the first three entries, then the audio row.\<close>

definition quality_buttons :: "string \<Rightarrow> (pyval \<times> fmt) list \<Rightarrow> button list list" where
  "quality_buttons url fmts =
     foldl (\<lambda>buttons item. buttons @ [video_row url item]) [] (take 3 fmts)
     @ [audio_row url]"

text \<open>
  Lines 156 to 181: with an empty map the handler replies that no format was found and
  returns (\<open>None\<close>: no menu); otherwise the menu is the keyboard of the reply.
\<close>

definition reply_markup :: "string \<Rightarrow> video_info \<Rightarrow> button list list option" where
  "reply_markup url info =
     (let fmts = get_available_formats info
      in if fmts = [] then None else Some (quality_buttons url fmts))"

section \<open>Decoding a button payload\<close>

text \<open>\<open>s.split(c)\<close> and \<open>c.join(parts)\<close> for a one-character separator.\<close>

fun split_on :: "char \<Rightarrow> string \<Rightarrow> string list" where
  "split_on c [] = [[]]"
| "split_on c (x # xs) =
     (if x = c then [] # split_on c xs
      else (x # hd (split_on c xs)) # tl (split_on c xs))"

fun join :: "string \<Rightarrow> string list \<Rightarrow> string" where
  "join sep [] = []"
| "join sep [p] = p"
| "join sep (p # q # ps) = p @ sep @ join sep (q # ps)"

definition startswith :: "string \<Rightarrow> string \<Rightarrow> bool" where
  "startswith s pre = (take (length pre) s = pre)"

definition endswith :: "string \<Rightarrow> string \<Rightarrow> bool" where
  "endswith s suf = (length suf \<le> length s \<and> drop (length s - length suf) s = suf)"

text \<open>The exceptions of the model. \<open>Raised\<close> is one raised by a collaborator.\<close>

datatype exn =
    ValueError string
  | IndexError
  | FileNotFoundError string
  | Raised string

text \<open>
  Lines 203 to 205: \<open>parts = data.split('_')\<close>, \<open>quality = parts[1]\<close>,
  \<open>url = '_'.join(parts[2:])\<close>. Indexing past the end raises.
\<close>

definition parse_callback :: "string \<Rightarrow> exn + (string \<times> string)" where
  "parse_callback data =
     (let parts = split_on CHR ''_'' data
      in if 1 < length parts then Inr (parts ! 1, join ''_'' (drop 2 parts))
         else Inl IndexError)"

section \<open>Paths\<close>

text \<open>
  \<open>os.path.splitext\<close> on a POSIX path, as the standard library computes it: the
  extension starts at the last dot of the last component, unless every character of the
  component before that dot is a dot.
\<close>

definition rfind :: "char \<Rightarrow> string \<Rightarrow> int" where
  "rfind c s =
     (if c \<in> set s
      then int (length s) - 1 - int (length (takeWhile (\<lambda>x. x \<noteq> c) (rev s)))
      else - 1)"

definition splitext :: "string \<Rightarrow> string \<times> string" where
  "splitext p =
     (let sepIndex = rfind CHR ''/'' p;
          dotIndex = rfind CHR ''.'' p;
          name = take (nat (dotIndex - (sepIndex + 1))) (drop (nat (sepIndex + 1)) p)
      in if dotIndex > sepIndex \<and> (\<exists>x \<in> set name. x \<noteq> CHR ''.'')
         then (take (nat dotIndex) p, drop (nat dotIndex) p)
         else (p, []))"

section \<open>Effects: the transport, the download library and the file system\<close>

text \<open>
  The texts the program sends or prints, by the template they come from:
  \<^item> \<open>StartingDownload\<close>: "Starting download... Please wait."
  \<^item> \<open>DownloadFailed\<close>: "Download failed. Please try again."
  \<^item> \<open>ErrorSendingFile e\<close>: \<open>f"Error sending file: {str(e)}"\<close>
  \<^item> \<open>GenericError e\<close>: \<open>f"Error: {str(e)}"\<close>
  \<^item> \<open>DownloadingVideo r\<close>: \<open>f"Downloading {resolution}p video..."\<close>
  \<^item> \<open>DownloadingAudio\<close>: "Downloading audio..."
  \<^item> \<open>DownloadError e\<close>: \<open>f"Download error: {e}"\<close> (printed)
  \<^item> \<open>AudioDownloadError e\<close>: \<open>f"Audio download error: {e}"\<close> (printed)
\<close>

datatype msg =
    StartingDownload
  | DownloadFailed
  | ErrorSendingFile exn
  | GenericError exn
  | DownloadingVideo int
  | DownloadingAudio
  | DownloadError exn
  | AudioDownloadError exn

text \<open>
  Every call the handlers make to the outside, in the order they make it:
  \<^item> \<open>QueryAnswer\<close>: \<open>query.answer()\<close>
  \<^item> \<open>EditMessageText m\<close>: \<open>query.edit_message_text(m)\<close>
  \<^item> \<open>DeleteMessage\<close>: \<open>query.delete_message()\<close>
  \<^item> \<open>SendMessage chat_id m\<close>: \<open>app.bot.send_message(chat_id, m)\<close>
  \<^item> \<open>ExtractVideo url r\<close>: \<open>extract_info(url, download=True)\<close> and
    \<open>prepare_filename\<close> under the format \<open>b[height<=r]\<close>
  \<^item> \<open>ExtractAudio url\<close>: the same under \<open>bestaudio/best\<close> with the MP3 post-processor
  \<^item> \<open>Rename a b\<close>: \<open>os.rename(a, b)\<close>
  \<^item> \<open>OpenFile p\<close>: \<open>open(p, 'rb')\<close>
  \<^item> \<open>SendAudio chat_id p\<close>: \<open>context.bot.send_audio\<close> of the opened file
  \<^item> \<open>SendVideo chat_id p quality\<close>: \<open>context.bot.send_video\<close> of the opened file
  \<^item> \<open>PathExists p\<close>: \<open>os.path.exists(p)\<close>
  \<^item> \<open>Remove p\<close>: \<open>os.remove(p)\<close>
  \<^item> \<open>Print m\<close>: \<open>print(m)\<close>
\<close>

datatype event =
    QueryAnswer
  | EditMessageText msg
  | DeleteMessage
  | SendMessage int msg
  | ExtractVideo string int
  | ExtractAudio string
  | Rename string string
  | OpenFile string
  | SendAudio int string
  | SendVideo int string string
  | PathExists string
  | Remove string
  | Print msg

text \<open>
  The collaborators:
  \<^item> \<open>transport\<close>: whether a call to the messaging transport raises, given the calls made
    so far;
  \<^item> \<open>ydl\<close>: the download library on a request and the files present: it raises or
    returns the prepared file name, and leaves the files it leaves. The progress hook it
    calls while downloading is part of it;
  \<^item> \<open>py_int\<close>: the builtin \<open>int\<close> on a string, \<open>None\<close> where it raises \<open>ValueError\<close>.
\<close>

record env =
  transport :: "event list \<Rightarrow> event \<Rightarrow> exn option"
  ydl :: "event \<Rightarrow> string set \<Rightarrow> (exn + string) \<times> string set"
  py_int :: "string \<Rightarrow> int option"

text \<open>The state: the calls made so far and the files on disk.\<close>

record world =
  trace :: "event list"
  files :: "string set"

type_synonym 'a comp = "world \<Rightarrow> (exn + 'a) \<times> world"

definition ret :: "'a \<Rightarrow> 'a comp" where
  "ret x w = (Inr x, w)"

definition raise :: "exn \<Rightarrow> 'a comp" where
  "raise e w = (Inl e, w)"

text \<open>One statement after the other: an exception of the first skips the second.\<close>

definition seq :: "'a comp \<Rightarrow> ('a \<Rightarrow> 'b comp) \<Rightarrow> 'b comp" where
  "seq m f w = (case m w of (Inl e, w') \<Rightarrow> (Inl e, w') | (Inr x, w') \<Rightarrow> f x w')"

text \<open>\<open>try: m except Exception as e: h\<close>\<close>

definition try_except :: "'a comp \<Rightarrow> (exn \<Rightarrow> 'a comp) \<Rightarrow> 'a comp" where
  "try_except m h w = (case m w of (Inl e, w') \<Rightarrow> h e w' | (Inr x, w') \<Rightarrow> (Inr x, w'))"

definition record_event :: "event \<Rightarrow> world \<Rightarrow> world" where
  "record_event ev w = w\<lparr>trace := trace w @ [ev]\<rparr>"

definition call :: "env \<Rightarrow> event \<Rightarrow> unit comp" where
  "call env ev w =
     (case transport env (trace w) ev of
        None \<Rightarrow> (Inr (), record_event ev w)
      | Some e \<Rightarrow> (Inl e, record_event ev w))"

definition run_ydl :: "env \<Rightarrow> event \<Rightarrow> string comp" where
  "run_ydl env req w =
     (fst (ydl env req (files w)),
      (record_event req w)\<lparr>files := snd (ydl env req (files w))\<rparr>)"

definition print :: "msg \<Rightarrow> unit comp" where
  "print m w = (Inr (), record_event (Print m) w)"

definition os_rename :: "string \<Rightarrow> string \<Rightarrow> unit comp" where
  "os_rename a b w =
     (if a \<in> files w
      then (Inr (), (record_event (Rename a b) w)\<lparr>files := insert b (files w - {a})\<rparr>)
      else (Inl (FileNotFoundError a), record_event (Rename a b) w))"

definition open_file :: "string \<Rightarrow> unit comp" where
  "open_file p w =
     (if p \<in> files w then (Inr (), record_event (OpenFile p) w)
      else (Inl (FileNotFoundError p), record_event (OpenFile p) w))"

definition os_remove :: "string \<Rightarrow> unit comp" where
  "os_remove p w =
     (if p \<in> files w
      then (Inr (), (record_event (Remove p) w)\<lparr>files := files w - {p}\<rparr>)
      else (Inl (FileNotFoundError p), record_event (Remove p) w))"

definition os_path_exists :: "string \<Rightarrow> bool comp" where
  "os_path_exists p w = (Inr (p \<in> files w), record_event (PathExists p) w)"

section \<open>\<open>TelegramBot.download_video\<close> and \<open>TelegramBot.download_audio\<close>\<close>

text \<open>The result is \<open>None\<close> where the source returns \<open>None\<close>.\<close>

definition download_video :: "env \<Rightarrow> string \<Rightarrow> int \<Rightarrow> int \<Rightarrow> string option comp" where
  "download_video env url resolution chat_id =
     try_except
       (seq (call env (SendMessage chat_id (DownloadingVideo resolution))) (\<lambda>_.
        seq (run_ydl env (ExtractVideo url resolution)) (\<lambda>filename.
        if \<not> endswith filename ''.mp4'' then
          (let new_filename = fst (splitext filename) @ ''.mp4''
           in seq (os_rename filename new_filename) (\<lambda>_. ret (Some new_filename)))
        else ret (Some filename))))
       (\<lambda>e. seq (print (DownloadError e)) (\<lambda>_. ret None))"

definition download_audio :: "env \<Rightarrow> string \<Rightarrow> int \<Rightarrow> string option comp" where
  "download_audio env url chat_id =
     try_except
       (seq (call env (SendMessage chat_id DownloadingAudio)) (\<lambda>_.
        seq (run_ydl env (ExtractAudio url)) (\<lambda>filename.
        ret (Some (fst (splitext filename) @ ''.mp3'')))))
       (\<lambda>e. seq (print (AudioDownloadError e)) (\<lambda>_. ret None))"

section \<open>\<open>TelegramBot.button_callback\<close>\<close>

text \<open>Lines 221 to 244: sending the downloaded file and cleaning up.\<close>

definition send_file :: "env \<Rightarrow> string \<Rightarrow> string \<Rightarrow> int \<Rightarrow> unit comp" where
  "send_file env quality filename chat_id =
     try_except
       (seq (if quality = ''audio''
             then seq (open_file filename) (\<lambda>_. call env (SendAudio chat_id filename))
             else seq (open_file filename) (\<lambda>_. call env (SendVideo chat_id filename quality)))
          (\<lambda>_.
        seq (os_remove filename) (\<lambda>_.
        call env DeleteMessage)))
       (\<lambda>e. seq (call env (EditMessageText (ErrorSendingFile e))) (\<lambda>_.
            seq (os_path_exists filename) (\<lambda>exists.
            if exists then os_remove filename else ret ())))"

text \<open>Lines 209 to 214: the fetch chosen by the quality token.\<close>

definition fetch :: "env \<Rightarrow> string \<Rightarrow> string \<Rightarrow> int \<Rightarrow> string option comp" where
  "fetch env quality url chat_id =
     (if quality = ''audio'' then download_audio env url chat_id
      else (case py_int env quality of
              None \<Rightarrow> raise (ValueError quality)
            | Some resolution \<Rightarrow> download_video env url resolution chat_id))"

text \<open>\<open>not filename\<close>: \<open>None\<close> and the empty string are both false.\<close>

definition button_callback :: "env \<Rightarrow> string \<Rightarrow> int \<Rightarrow> unit comp" where
  "button_callback env data chat_id =
     seq (call env QueryAnswer) (\<lambda>_.
     if startswith data ''dl_'' then
       try_except
         (case parse_callback data of
            Inl e \<Rightarrow> raise e
          | Inr (quality, url) \<Rightarrow>
              seq (call env (EditMessageText StartingDownload)) (\<lambda>_.
              seq (fetch env quality url chat_id) (\<lambda>filename.
              case filename of
                None \<Rightarrow> call env (EditMessageText DownloadFailed)
              | Some path \<Rightarrow>
                  if path = [] then call env (EditMessageText DownloadFailed)
                  else send_file env quality path chat_id)))
         (\<lambda>e. call env (EditMessageText (GenericError e)))
     else ret ())"

text \<open>The calls that hand a file to the transport, and the calls that start a download.\<close>

definition is_delivery :: "event \<Rightarrow> bool" where
  "is_delivery ev =
     (case ev of OpenFile _ \<Rightarrow> True | SendAudio _ _ \<Rightarrow> True | SendVideo _ _ _ \<Rightarrow> True
      | _ \<Rightarrow> False)"

definition is_download :: "event \<Rightarrow> bool" where
  "is_download ev =
     (case ev of SendMessage _ _ \<Rightarrow> True | ExtractVideo _ _ \<Rightarrow> True | ExtractAudio _ \<Rightarrow> True
      | _ \<Rightarrow> False)"

section \<open>Example inputs\<close>

text \<open>
  Five candidates: two at 1080 (50 MB, then 80 MB), one at 720, an audio-only stream and
  one without codec, height or size.
\<close>

definition ex_f1 :: fmt where
  "ex_f1 = \<lparr>vcodec = Some ''avc1'', height = Some (PyInt 1080), filesize = Some 50000000\<rparr>"

definition ex_f2 :: fmt where
  "ex_f2 = \<lparr>vcodec = Some ''avc1'', height = Some (PyInt 1080), filesize = Some 80000000\<rparr>"

definition ex_f3 :: fmt where
  "ex_f3 = \<lparr>vcodec = Some ''vp9'', height = Some (PyInt 720), filesize = Some 30000000\<rparr>"

definition ex_f4 :: fmt where
  "ex_f4 = \<lparr>vcodec = Some ''none'', height = None, filesize = Some 4000000\<rparr>"

definition ex_f5 :: fmt where
  "ex_f5 = \<lparr>vcodec = None, height = None, filesize = None\<rparr>"

definition ex_info :: video_info where
  "ex_info = \<lparr>formats = Some [ex_f3, ex_f5, ex_f1, ex_f4, ex_f2]\<rparr>"




text \<open>
  The five candidates again, with one at 2160 without a size and one at 1440 of a quarter
  of a megabyte: five heights in all.
\<close>

definition ex_many :: video_info where
  "ex_many = \<lparr>formats = Some [ex_f3, ex_f5, ex_f1, ex_f4, ex_f2,
     \<lparr>vcodec = Some ''av01'', height = Some (PyInt 2160), filesize = None\<rparr>,
     \<lparr>vcodec = Some ''av01'', height = Some (PyInt 1440), filesize = Some 262144\<rparr>]\<rparr>"

section \<open>Assumptions on the transport, and the send call of a quality\<close>

text \<open>
  \<open>reliable\<close>: no call to the transport raises. \<open>edits_accepted\<close>: no
  \<open>edit_message_text\<close> raises.
\<close>

definition reliable :: "env \<Rightarrow> bool" where
  "reliable env = (\<forall>h ev. transport env h ev = None)"

definition edits_accepted :: "env \<Rightarrow> bool" where
  "edits_accepted env = (\<forall>h m. transport env h (EditMessageText m) = None)"

text \<open>The send of lines 222 to 235: \<open>send_audio\<close> for the audio token, else \<open>send_video\<close>.\<close>

definition send_call :: "string \<Rightarrow> string \<Rightarrow> int \<Rightarrow> event" where
  "send_call quality filename chat_id =
     (if quality = ''audio'' then SendAudio chat_id filename
      else SendVideo chat_id filename quality)"

section \<open>Example collaborators\<close>

text \<open>
  An \<open>int\<close> that knows two heights; a download library that reports \<open>Song.webm\<close> for
  audio (the post-processor leaves \<open>Song.mp3\<close>) and \<open>T.mp4\<close> for video; a transport that
  accepts every call; a library that is offline; a transport that fails every send.
\<close>

definition ex_py_int :: "string \<Rightarrow> int option" where
  "ex_py_int s = (if s = ''1080'' then Some 1080 else if s = ''720'' then Some 720 else None)"

definition ex_ydl :: "event \<Rightarrow> string set \<Rightarrow> (exn + string) \<times> string set" where
  "ex_ydl req fs =
     (case req of
        ExtractAudio u \<Rightarrow>
          (Inr ''temp_downloads/Song.webm'', insert ''temp_downloads/Song.mp3'' fs)
      | ExtractVideo u r \<Rightarrow>
          (Inr ''temp_downloads/T.mp4'', insert ''temp_downloads/T.mp4'' fs)
      | _ \<Rightarrow> (Inl (Raised ''not a download''), fs))"

definition ex_env :: env where
  "ex_env = \<lparr>transport = (\<lambda>h ev. None), ydl = ex_ydl, py_int = ex_py_int\<rparr>"

definition ex_env_offline :: env where
  "ex_env_offline =
     \<lparr>transport = (\<lambda>h ev. None),
      ydl = (\<lambda>req fs. (Inl (Raised ''network unreachable''), fs)),
      py_int = ex_py_int\<rparr>"

definition ex_env_send_fails :: env where
  "ex_env_send_fails =
     \<lparr>transport = (\<lambda>h ev. case ev of
                       SendVideo c p q \<Rightarrow> Some (Raised ''timed out'')
                     | SendAudio c p \<Rightarrow> Some (Raised ''timed out'')
                     | _ \<Rightarrow> None),
      ydl = ex_ydl, py_int = ex_py_int\<rparr>"

text \<open>A connection that is lost from the first send on: that call and every later one raise.\<close>

definition is_send :: "event \<Rightarrow> bool" where
  "is_send ev = (case ev of SendAudio c p \<Rightarrow> True | SendVideo c p q \<Rightarrow> True | _ \<Rightarrow> False)"

definition ex_env_connection_lost :: env where
  "ex_env_connection_lost =
     \<lparr>transport =
        (\<lambda>h ev. if list_ex is_send (h @ [ev]) then Some (Raised ''timed out'') else None),
      ydl = ex_ydl, py_int = ex_py_int\<rparr>"

definition ex_world :: world where
  "ex_world = \<lparr>trace = [], files = {}\<rparr>"

definition ex_world_file :: world where
  "ex_world_file = \<lparr>trace = [], files = {''temp_downloads/T.mp4''}\<rparr>"

section \<open>Properties of the dictionary operations\<close>

lemma map_of_dict_set: "map_of (dict_set d k v) = (map_of d)(k \<mapsto> v)"
  by (induction d) (auto simp: fun_eq_iff)

lemma keys_dict_set: "fst ` set (dict_set d k v) = insert k (fst ` set d)"
proof (induction d)
  case Nil
  show ?case by simp
next
  case (Cons p d)
  obtain k' v' where p: "p = (k', v')" by (cases p)
  show ?case
  proof (cases "k' = k")
    case True
    with p show ?thesis by simp
  next
    case False
    with p Cons.IH show ?thesis by (simp add: insert_commute)
  qed
qed

lemma distinct_dict_set:
  "distinct (map fst d) \<Longrightarrow> distinct (map fst (dict_set d k v))"
proof (induction d)
  case Nil
  then show ?case by simp
next
  case (Cons p d)
  obtain k' v' where p: "p = (k', v')" by (cases p)
  show ?case
  proof (cases "k' = k")
    case True
    with Cons.prems p show ?thesis by simp
  next
    case False
    have "k' \<notin> fst ` set (dict_set d k v)"
      using Cons.prems False p by (simp add: keys_dict_set)
    with Cons False p show ?thesis by simp
  qed
qed

lemma set_dict_set:
  "set (dict_set d k v) \<subseteq> insert (k, v) (set d)"
proof (induction d)
  case Nil
  show ?case by simp
next
  case (Cons p d)
  obtain k' v' where p: "p = (k', v')" by (cases p)
  show ?case
  proof (cases "k' = k")
    case True
    with p show ?thesis by auto
  next
    case False
    with p Cons.IH show ?thesis by auto
  qed
qed

lemma dict_set_absent:
  "k \<notin> fst ` set d \<Longrightarrow> dict_set d k v = d @ [(k, v)]"
  by (induction d) auto

lemma foldl_dict_set_distinct:
  "distinct (map fst (d @ xs)) \<Longrightarrow>
   foldl (\<lambda>d item. dict_set d (fst item) (snd item)) d xs = d @ xs"
proof (induction xs arbitrary: d)
  case Nil
  then show ?case by simp
next
  case (Cons x xs)
  have absent: "fst x \<notin> fst ` set d"
    using Cons.prems by auto
  have step: "dict_set d (fst x) (snd x) = d @ [x]"
    using dict_set_absent [OF absent] by simp
  have "distinct (map fst ((d @ [x]) @ xs))"
    using Cons.prems by simp
  from Cons.IH [OF this] step show ?case by simp
qed

lemma py_dict_distinct: "distinct (map fst xs) \<Longrightarrow> py_dict xs = xs"
  using foldl_dict_set_distinct [of "[]" xs] by (simp add: py_dict_def)

section \<open>The loop of \<open>get_available_formats\<close> keeps its invariant\<close>

lemma first_largest_snoc_keep:
  assumes "first_largest fs r g"
    and "is_video f \<and> get_height f = r \<longrightarrow> size_or_0 f \<le> size_or_0 g"
  shows "first_largest (fs @ [f]) r g"
proof -
  from assms(1) obtain pre post where
    vid: "is_video g" "get_height g = r" and
    split: "fs = pre @ g # post" and
    before: "\<forall>h \<in> set pre. is_video h \<and> get_height h = r \<longrightarrow> size_or_0 h < size_or_0 g" and
    after: "\<forall>h \<in> set post. is_video h \<and> get_height h = r \<longrightarrow> size_or_0 h \<le> size_or_0 g"
    unfolding first_largest_def by blast
  have "fs @ [f] = pre @ g # (post @ [f])"
    using split by simp
  moreover have "\<forall>h \<in> set (post @ [f]). is_video h \<and> get_height h = r \<longrightarrow> size_or_0 h \<le> size_or_0 g"
    using after assms(2) by auto
  ultimately show ?thesis
    unfolding first_largest_def using vid before by blast
qed

lemma first_largest_snoc_new:
  assumes "is_video f"
    and "\<forall>h \<in> set fs. is_video h \<and> get_height h = get_height f \<longrightarrow> size_or_0 h < size_or_0 f"
  shows "first_largest (fs @ [f]) (get_height f) f"
proof -
  have "fs @ [f] = fs @ f # []" by simp
  moreover have "\<forall>h \<in> set []. is_video h \<and> get_height h = get_height f \<longrightarrow> size_or_0 h \<le> size_or_0 f"
    by simp
  ultimately show ?thesis
    unfolding first_largest_def using assms by blast
qed

lemma first_largest_bound:
  assumes "first_largest fs r g" "h \<in> set fs" "is_video h" "get_height h = r"
  shows "size_or_0 h \<le> size_or_0 g"
proof -
  from assms(1) obtain pre post where
    split: "fs = pre @ g # post" and
    before: "\<forall>h \<in> set pre. is_video h \<and> get_height h = r \<longrightarrow> size_or_0 h < size_or_0 g" and
    after: "\<forall>h \<in> set post. is_video h \<and> get_height h = r \<longrightarrow> size_or_0 h \<le> size_or_0 g"
    unfolding first_largest_def by blast
  from assms(2) split have "h \<in> set pre \<or> h = g \<or> h \<in> set post" by auto
  then show ?thesis
    using before after assms(3,4) by fastforce
qed

lemma first_largest_member: "first_largest fs r g \<Longrightarrow> g \<in> set fs \<and> is_video g \<and> get_height g = r"
  unfolding first_largest_def by auto

lemma dict_set_entries:
  assumes "distinct (map fst d)" "(r', g') \<in> set (dict_set d r f)"
  shows "(r', g') = (r, f) \<or> ((r', g') \<in> set d \<and> r' \<noteq> r)"
proof -
  have "distinct (map fst (dict_set d r f))"
    using assms(1) by (rule distinct_dict_set)
  with assms(2) have "map_of (dict_set d r f) r' = Some g'"
    by simp
  then have look: "((map_of d)(r \<mapsto> f)) r' = Some g'"
    by (simp add: map_of_dict_set)
  show ?thesis
  proof (cases "r' = r")
    case True
    with look show ?thesis by simp
  next
    case False
    with look have "map_of d r' = Some g'" by simp
    then have "(r', g') \<in> set d" by (rule map_of_SomeD)
    with False show ?thesis by simp
  qed
qed

lemma add_format_inv:
  assumes inv: "resolutions_inv fs d"
  shows "resolutions_inv (fs @ [f]) (add_format d f)"
proof -
  from inv have dist: "distinct (map fst d)"
    and entries: "\<And>r g. (r, g) \<in> set d \<Longrightarrow> first_largest fs r g"
    and complete: "\<And>h. h \<in> set fs \<Longrightarrow> is_video h \<Longrightarrow> get_height h \<in> fst ` set d"
    unfolding resolutions_inv_def by auto
  let ?r = "get_height f"
  show ?thesis
  proof (cases "is_video f")
    case False
    then have same: "add_format d f = d"
      by (simp add: add_format_def)
    have "\<And>r g. (r, g) \<in> set d \<Longrightarrow> first_largest (fs @ [f]) r g"
      using entries False by (simp add: first_largest_snoc_keep)
    moreover have "\<And>h. h \<in> set (fs @ [f]) \<Longrightarrow> is_video h \<Longrightarrow> get_height h \<in> fst ` set d"
      using complete False by auto
    ultimately show ?thesis
      unfolding resolutions_inv_def same using dist by auto
  next
    case video: True
    show ?thesis
    proof (cases "map_of d ?r")
      case None
      then have absent: "?r \<notin> fst ` set d"
        by (simp add: map_of_eq_None_iff)
      have step: "add_format d f = dict_set d ?r f"
        using video None by (simp add: add_format_def)
      have none_before: "\<forall>h \<in> set fs. is_video h \<and> get_height h = ?r \<longrightarrow> size_or_0 h < size_or_0 f"
        using complete absent by metis
      have new_entries: "first_largest (fs @ [f]) r g" if "(r, g) \<in> set (dict_set d ?r f)" for r g
      proof -
        from dict_set_entries [OF dist that]
        consider "(r, g) = (?r, f)" | "(r, g) \<in> set d" "r \<noteq> ?r" by blast
        then show ?thesis
        proof cases
          case 1
          then show ?thesis
            using first_largest_snoc_new [OF video none_before] by simp
        next
          case 2
          then show ?thesis
            using entries first_largest_snoc_keep by metis
        qed
      qed
      have "\<And>h. h \<in> set (fs @ [f]) \<Longrightarrow> is_video h \<Longrightarrow> get_height h \<in> fst ` set (dict_set d ?r f)"
        using complete by (auto simp: keys_dict_set)
      then show ?thesis
        unfolding resolutions_inv_def step
        using distinct_dict_set [OF dist] new_entries by auto
    next
      case (Some g)
      then have present: "(?r, g) \<in> set d"
        by (rule map_of_SomeD)
      have old: "first_largest fs ?r g"
        using entries present by simp
      have only: "g' = g" if "(?r, g') \<in> set d" for g'
        using that dist Some by simp
      show ?thesis
      proof (cases "size_or_0 f > size_or_0 g")
        case larger: True
        have step: "add_format d f = dict_set d ?r f"
          using video Some larger by (simp add: add_format_def existing_size_def)
        have smaller_before: "\<forall>h \<in> set fs. is_video h \<and> get_height h = ?r \<longrightarrow> size_or_0 h < size_or_0 f"
          using first_largest_bound [OF old] larger by fastforce
        have new_entries: "first_largest (fs @ [f]) r g'" if "(r, g') \<in> set (dict_set d ?r f)" for r g'
        proof -
          from dict_set_entries [OF dist that]
          consider "(r, g') = (?r, f)" | "(r, g') \<in> set d" "r \<noteq> ?r" by blast
          then show ?thesis
          proof cases
            case 1
            then show ?thesis
              using first_largest_snoc_new [OF video smaller_before] by simp
          next
            case 2
            then show ?thesis
              using entries first_largest_snoc_keep by metis
          qed
        qed
        have "\<And>h. h \<in> set (fs @ [f]) \<Longrightarrow> is_video h \<Longrightarrow> get_height h \<in> fst ` set (dict_set d ?r f)"
          using complete by (auto simp: keys_dict_set)
        then show ?thesis
          unfolding resolutions_inv_def step
          using distinct_dict_set [OF dist] new_entries by auto
      next
        case not_larger: False
        have same: "add_format d f = d"
          using video Some not_larger by (simp add: add_format_def existing_size_def)
        have kept: "first_largest (fs @ [f]) r g'" if "(r, g') \<in> set d" for r g'
        proof (cases "r = ?r")
          case True
          with that only have "g' = g" by simp
          with True old not_larger show ?thesis
            by (simp add: first_largest_snoc_keep)
        next
          case False
          with that entries show ?thesis
            by (simp add: first_largest_snoc_keep)
        qed
        have "\<And>h. h \<in> set (fs @ [f]) \<Longrightarrow> is_video h \<Longrightarrow> get_height h \<in> fst ` set d"
          using complete present by force
        then show ?thesis
          unfolding resolutions_inv_def same using dist kept by auto
      qed
    qed
  qed
qed

lemma unique_resolutions_inv: "resolutions_inv fs (unique_resolutions fs)"
proof (induction fs rule: rev_induct)
  case Nil
  show ?case by (simp add: unique_resolutions_def resolutions_inv_def)
next
  case (snoc f fs)
  then show ?case
    using add_format_inv [of fs "unique_resolutions fs" f]
    by (simp add: unique_resolutions_def)
qed

lemma sorted_reverse_set: "set (sorted_reverse d) = set d"
  by (simp add: sorted_reverse_def)

lemma sorted_reverse_distinct:
  assumes "distinct (map fst d)"
  shows "distinct (map fst (sorted_reverse d))"
proof -
  from assms have "distinct d" "inj_on fst (set d)"
    by (simp_all add: distinct_map)
  then show ?thesis
    by (simp add: distinct_map sorted_reverse_def)
qed

lemma get_available_formats_sorted:
  "get_available_formats info = sorted_reverse (unique_resolutions (get_formats info))"
proof -
  have "distinct (map fst (unique_resolutions (get_formats info)))"
    using unique_resolutions_inv [of "get_formats info"] by (simp add: resolutions_inv_def)
  then have "distinct (map fst (sorted_reverse (unique_resolutions (get_formats info))))"
    by (rule sorted_reverse_distinct)
  then show ?thesis
    by (simp add: get_available_formats_def py_dict_distinct)
qed

lemma get_available_formats_inv:
  "resolutions_inv (get_formats info) (get_available_formats info)"
proof -
  let ?d = "unique_resolutions (get_formats info)"
  have inv: "resolutions_inv (get_formats info) ?d"
    by (rule unique_resolutions_inv)
  then have "distinct (map fst (sorted_reverse ?d))"
    by (simp add: resolutions_inv_def sorted_reverse_distinct)
  with inv show ?thesis
    unfolding get_available_formats_sorted resolutions_inv_def sorted_reverse_set by simp
qed

lemmas ex_defs = ex_f1_def ex_f2_def ex_f3_def ex_f4_def ex_f5_def ex_info_def

lemma ex_out: "get_available_formats ex_info =
   [(PyInt 1080, ex_f2), (PyInt 720, ex_f3), (PyStr ''unknown'', ex_f5)]"
  by (simp add: get_available_formats_def py_dict_def sorted_reverse_def unique_resolutions_def
      get_formats_def add_format_def is_video_def get_height_def size_or_0_def existing_size_def
      sort_height_def Let_def ex_defs)

section \<open>Claims about the reduction\<close>

text \<open>
  C1. The output of \<open>get_available_formats\<close> has at most one entry per height: its keys
  are distinct. The entry kept under a height is a video candidate of the input with that
  height whose size (a missing size counting as 0) is the largest among the video
  candidates of that height, and the first of those that reach it: every such candidate
  before it is strictly smaller, none after it is larger. The heights kept are exactly
  the heights of the video candidates, so with one video candidate the output is not
  empty.
\<close>

theorem get_available_formats_unique_largest:
  "distinct (map fst (get_available_formats info)) \<and>
   (\<forall>(r, g) \<in> set (get_available_formats info). first_largest (get_formats info) r g) \<and>
   fst ` set (get_available_formats info) =
     get_height ` {f \<in> set (get_formats info). is_video f}"
proof -
  let ?out = "get_available_formats info" and ?fs = "get_formats info"
  have inv: "resolutions_inv ?fs ?out"
    by (rule get_available_formats_inv)
  then have dist: "distinct (map fst ?out)"
    and entries: "\<forall>(r, g) \<in> set ?out. first_largest ?fs r g"
    and complete: "\<forall>h \<in> set ?fs. is_video h \<longrightarrow> get_height h \<in> fst ` set ?out"
    by (simp_all add: resolutions_inv_def)
  have "fst ` set ?out \<subseteq> get_height ` {f \<in> set ?fs. is_video f}"
  proof
    fix r assume "r \<in> fst ` set ?out"
    then obtain g where "(r, g) \<in> set ?out" by auto
    with entries have "first_largest ?fs r g" by auto
    then have "g \<in> set ?fs \<and> is_video g \<and> get_height g = r"
      by (rule first_largest_member)
    then show "r \<in> get_height ` {f \<in> set ?fs. is_video f}" by auto
  qed
  moreover have "get_height ` {f \<in> set ?fs. is_video f} \<subseteq> fst ` set ?out"
    using complete by auto
  ultimately show ?thesis
    using dist entries by auto
qed

theorem get_available_formats_unique_largest_witness:
  "distinct (map fst (get_available_formats ex_info)) \<and>
   get_available_formats ex_info =
     [(PyInt 1080, ex_f2), (PyInt 720, ex_f3), (PyStr ''unknown'', ex_f5)] \<and>
   first_largest (get_formats ex_info) (PyInt 1080) ex_f2 \<and>
   size_or_0 ex_f1 < size_or_0 ex_f2"
proof -
  have "(PyInt 1080, ex_f2) \<in> set (get_available_formats ex_info)"
    by (simp add: ex_out)
  then show ?thesis
    using get_available_formats_unique_largest [of ex_info]
    by (auto simp: ex_out size_or_0_def ex_f1_def ex_f2_def)
qed




text \<open>
  C3. The output of \<open>get_available_formats\<close> is sorted by height in descending order,
  where a height that is not an integer, such as \<open>'unknown'\<close>, counts as 0: an entry
  with the height \<open>'unknown'\<close> comes after every entry with a positive integer height.
\<close>

theorem get_available_formats_sorted_descending:
  "sorted_wrt (\<lambda>a b. sort_height (fst a) \<ge> sort_height (fst b)) (get_available_formats info) \<and>
   sort_height (PyStr ''unknown'') = 0 \<and>
   (\<forall>i j n. i < length (get_available_formats info) \<and>
            j < length (get_available_formats info) \<and>
            fst (get_available_formats info ! i) = PyStr ''unknown'' \<and>
            fst (get_available_formats info ! j) = PyInt n \<and> 0 < n \<longrightarrow> j < i)"
proof -
  let ?out = "get_available_formats info"
  let ?key = "\<lambda>item :: pyval \<times> fmt. - sort_height (fst item)"
  have "sorted (map ?key ?out)"
    unfolding get_available_formats_sorted sorted_reverse_def by (rule sorted_sort_key)
  then have desc: "sorted_wrt (\<lambda>a b. sort_height (fst a) \<ge> sort_height (fst b)) ?out"
    by (simp add: sorted_map)
  have below: "j < i"
    if "i < length ?out" "j < length ?out" "fst (?out ! i) = PyStr ''unknown''"
       "fst (?out ! j) = PyInt n" "0 < n" for i j n
  proof (rule ccontr)
    assume "\<not> j < i"
    moreover have "i \<noteq> j" using that(3,4) by auto
    ultimately have "i < j" by simp
    with desc that(2) have "sort_height (fst (?out ! i)) \<ge> sort_height (fst (?out ! j))"
      by (simp add: sorted_wrt_iff_nth_less)
    with that(3,4,5) show False by (simp add: sort_height_def)
  qed
  from desc below show ?thesis
    by (auto simp: sort_height_def)
qed

theorem get_available_formats_sorted_descending_witness:
  "get_available_formats ex_info ! 2 = (PyStr ''unknown'', ex_f5) \<and>
   get_available_formats ex_info ! 1 = (PyInt 720, ex_f3) \<and>
   (1::nat) < 2 \<and>
   sorted_wrt (\<lambda>a b. sort_height (fst a) \<ge> sort_height (fst b)) (get_available_formats ex_info)"
  using get_available_formats_sorted_descending [of ex_info]
  by (simp add: ex_out)

section \<open>Button payloads: splitting and joining\<close>

lemma split_on_not_Nil: "split_on c s \<noteq> []"
  by (induction s) auto

lemma split_on_prefix:
  "c \<notin> set q \<Longrightarrow> split_on c (q @ c # rest) = q # split_on c rest"
  by (induction q) auto

lemma join_Cons_Cons: "join sep ((x # p) # ps) = x # join sep (p # ps)"
  by (cases ps) auto

lemma join_split_on: "join [c] (split_on c s) = s"
proof (induction s)
  case Nil
  show ?case by simp
next
  case (Cons x xs)
  obtain p ps where parts: "split_on c xs = p # ps"
    using split_on_not_Nil [of c xs] by (cases "split_on c xs") auto
  show ?case
  proof (cases "x = c")
    case True
    with Cons.IH parts show ?thesis by simp
  next
    case False
    with Cons.IH parts show ?thesis by (simp add: join_Cons_Cons)
  qed
qed

lemma parse_callback_payload:
  assumes "CHR ''_'' \<notin> set quality"
  shows "parse_callback (payload quality url) = Inr (quality, url)"
proof -
  have "payload quality url = ''dl'' @ CHR ''_'' # (quality @ CHR ''_'' # url)"
    by (simp add: payload_def)
  moreover have "CHR ''_'' \<notin> set ''dl''" by simp
  ultimately have "split_on CHR ''_'' (payload quality url)
      = ''dl'' # split_on CHR ''_'' (quality @ CHR ''_'' # url)"
    using split_on_prefix by metis
  then have parts: "split_on CHR ''_'' (payload quality url)
      = ''dl'' # quality # split_on CHR ''_'' url"
    using assms by (simp add: split_on_prefix)
  show ?thesis
    unfolding parse_callback_def parts Let_def
    using join_split_on [of "CHR ''_''" url] by simp
qed

lemma digit_char_digit: "n < 10 \<Longrightarrow> digit_char n \<in> set ''0123456789''"
  unfolding digit_char_def by (rule nth_mem) simp

lemma str_nat_digits: "set (str_nat n) \<subseteq> set ''0123456789''"
proof (induction n rule: str_nat.induct)
  case (1 n)
  show ?case
  proof (cases "n < 10")
    case True
    then show ?thesis
      using digit_char_digit [of n] by (subst str_nat.simps) simp
  next
    case False
    have "n mod 10 < 10" by simp
    then have "digit_char (n mod 10) \<in> set ''0123456789''"
      by (rule digit_char_digit)
    with False "1.IH" show ?thesis
      by (subst str_nat.simps) simp
  qed
qed

lemma str_int_no_underscore: "CHR ''_'' \<notin> set (str_int h)"
proof -
  have "CHR ''_'' \<notin> set ''0123456789''" by simp
  then have "CHR ''_'' \<notin> set (str_nat k)" for k
    using str_nat_digits [of k] by blast
  then show ?thesis by (simp add: str_int_def)
qed

text \<open>
  C2. For every quality string without an underscore and every URL, underscores in the
  URL included, the payload \<open>dl_<quality>_<url>\<close> starts with \<open>dl_\<close> and decoding
  it (lines 203 to 205) gives back the quality and the URL. The decimal text of a height
  and the word \<open>audio\<close> have no underscore, so the payloads of the menu decode to what
  they were built from.
\<close>

theorem payload_roundtrip:
  "(CHR ''_'' \<notin> set quality \<longrightarrow>
      startswith (payload quality url) ''dl_'' \<and>
      parse_callback (payload quality url) = Inr (quality, url)) \<and>
   parse_callback (payload (str_int h) url) = Inr (str_int h, url) \<and>
   parse_callback (payload ''audio'' url) = Inr (''audio'', url)"
proof -
  have "startswith (payload quality url) ''dl_''"
    by (simp add: startswith_def payload_def)
  moreover have "CHR ''_'' \<notin> set ''audio''" by simp
  ultimately show ?thesis
    using parse_callback_payload str_int_no_underscore by blast
qed

lemma str_int_1080: "str_int 1080 = ''1080''"
  by (simp add: str_int_def str_nat.simps digit_char_def)

theorem payload_roundtrip_witness:
  "CHR ''_'' \<notin> set ''1080'' \<and>
   payload ''1080'' ''https://x/y_z'' = ''dl_1080_https://x/y_z'' \<and>
   parse_callback ''dl_1080_https://x/y_z'' = Inr (''1080'', ''https://x/y_z'')"
proof -
  have a: "CHR ''_'' \<notin> set ''1080''" by simp
  have b: "payload ''1080'' ''https://x/y_z'' = ''dl_1080_https://x/y_z''"
    by (simp add: payload_def)
  from a b show ?thesis
    using payload_roundtrip [of "''1080''" "''https://x/y_z''" 0] by simp
qed

section \<open>The quality menu\<close>

lemma foldl_append_rows:
  "foldl (\<lambda>buttons item. buttons @ [row item]) acc items = acc @ map row items"
  by (induction items arbitrary: acc) auto

lemma quality_buttons_map:
  "quality_buttons url fmts = map (video_row url) (take 3 fmts) @ [audio_row url]"
  by (simp add: quality_buttons_def foldl_append_rows)

text \<open>
  C4. When the reduced format map is not empty, the handler renders a menu: the rows of
  the first three entries of the map, in its order, followed by one audio row, which is
  the last row. The menu has one row more than the smaller of 3 and the number of entries,
  so at most four, whatever the input and whether or not it has an audio stream.
\<close>

theorem quality_menu_at_most_four:
  "get_available_formats info \<noteq> [] \<longrightarrow>
     (\<exists>menu. reply_markup url info = Some menu \<and>
        menu = map (video_row url) (take 3 (get_available_formats info)) @ [audio_row url] \<and>
        length menu = min 3 (length (get_available_formats info)) + 1 \<and>
        length menu \<le> 4 \<and>
        last menu = audio_row url)"
proof
  assume "get_available_formats info \<noteq> []"
  then have "reply_markup url info = Some (quality_buttons url (get_available_formats info))"
    by (simp add: reply_markup_def)
  then show "\<exists>menu. reply_markup url info = Some menu \<and>
        menu = map (video_row url) (take 3 (get_available_formats info)) @ [audio_row url] \<and>
        length menu = min 3 (length (get_available_formats info)) + 1 \<and>
        length menu \<le> 4 \<and>
        last menu = audio_row url"
    by (simp add: quality_buttons_map min_def)
qed

lemma ex_many_heights: "map fst (get_available_formats ex_many) =
   [PyInt 2160, PyInt 1440, PyInt 1080, PyInt 720, PyStr ''unknown'']"
  by code_simp

lemma ex_many_menu:
  "map (map button_text)
     (map (video_row ''https://youtu.be/a_b'') (take 3 (get_available_formats ex_many))
      @ [audio_row ''https://youtu.be/a_b'']) =
     [[''2160p''], [''1440p (0.2MB)''], [''1080p (76.3MB)''], [audio_label]]"
  by code_simp

theorem quality_menu_at_most_four_witness:
  "get_available_formats ex_many \<noteq> [] \<and>
   length (get_available_formats ex_many) = 5 \<and>
   map (map button_text) (the (reply_markup ''https://youtu.be/a_b'' ex_many)) =
     [[''2160p''], [''1440p (0.2MB)''], [''1080p (76.3MB)''], [audio_label]] \<and>
   length (the (reply_markup ''https://youtu.be/a_b'' ex_many)) = 4"
proof -
  have "length (map fst (get_available_formats ex_many)) = 5"
    unfolding ex_many_heights by simp
  then have len: "length (get_available_formats ex_many) = 5"
    by simp
  then have ne: "get_available_formats ex_many \<noteq> []"
    by auto
  from quality_menu_at_most_four [of ex_many "''https://youtu.be/a_b''"] ne
  obtain menu where
    menu: "reply_markup ''https://youtu.be/a_b'' ex_many = Some menu"
      "menu = map (video_row ''https://youtu.be/a_b'') (take 3 (get_available_formats ex_many))
         @ [audio_row ''https://youtu.be/a_b'']"
      "length menu = min 3 (length (get_available_formats ex_many)) + 1"
    by blast
  have eq: "the (reply_markup ''https://youtu.be/a_b'' ex_many) =
      map (video_row ''https://youtu.be/a_b'') (take 3 (get_available_formats ex_many))
         @ [audio_row ''https://youtu.be/a_b'']"
    using menu(1,2) by simp
  have labels: "map (map button_text) (the (reply_markup ''https://youtu.be/a_b'' ex_many)) =
     [[''2160p''], [''1440p (0.2MB)''], [''1080p (76.3MB)''], [audio_label]]"
    unfolding eq by (rule ex_many_menu)
  have "length (the (reply_markup ''https://youtu.be/a_b'' ex_many)) = 4"
    using menu(1,3) len by simp
  with ne len labels show ?thesis
    by simp
qed



section \<open>Button labels\<close>






section \<open>Claims about the downloads and the selection handler\<close>

subsection \<open>Properties of paths\<close>

lemma endswith_append: "endswith (s @ suf) suf"
  by (simp add: endswith_def)

lemma rfind_last:
  assumes "c \<notin> set e"
  shows "rfind c (s @ c # e) = int (length s)"
proof -
  have "takeWhile (\<lambda>x. x \<noteq> c) (rev e @ c # rev s) = rev e"
    using assms by (auto simp: takeWhile_tail)
  then show ?thesis
    by (simp add: rfind_def)
qed

lemma rfind_absent: "c \<notin> set s \<Longrightarrow> rfind c s = - 1"
  by (simp add: rfind_def)

lemma rfind_bound: "rfind c s < int (length s)"
  by (simp add: rfind_def)

lemma splitext_extension:
  assumes ext: "CHR ''.'' \<notin> set ext" "CHR ''/'' \<notin> set ext"
    and title: "CHR ''/'' \<notin> set title" "\<exists>x \<in> set title. x \<noteq> CHR ''.''"
  shows "splitext (dir @ ''/'' @ title @ ''.'' @ ext) = (dir @ ''/'' @ title, ''.'' @ ext)"
proof -
  let ?p = "dir @ ''/'' @ title @ ''.'' @ ext"
  have "?p = (dir @ ''/'' @ title) @ CHR ''.'' # ext" by simp
  then have dot: "rfind CHR ''.'' ?p = int (length dir) + 1 + int (length title)"
    using rfind_last [OF ext(1), of "dir @ ''/'' @ title"] by simp
  have "CHR ''/'' \<notin> set (title @ ''.'' @ ext)"
    using ext(2) title(1) by simp
  moreover have "?p = dir @ CHR ''/'' # (title @ ''.'' @ ext)" by simp
  ultimately have sep: "rfind CHR ''/'' ?p = int (length dir)"
    using rfind_last [of "CHR ''/''" "title @ ''.'' @ ext" dir] by simp
  have start: "nat (int (length dir) + 1) = Suc (length dir)"
    by simp
  have stop: "nat (int (length dir) + 1 + int (length title)) = Suc (length dir) + length title"
    by simp
  have span: "nat (int (length dir) + 1 + int (length title) - (int (length dir) + 1)) = length title"
    by simp
  have name: "take (nat (rfind CHR ''.'' ?p - (rfind CHR ''/'' ?p + 1)))
      (drop (nat (rfind CHR ''/'' ?p + 1)) ?p) = title"
    unfolding dot sep start span by simp
  have cut: "take (nat (rfind CHR ''.'' ?p)) ?p = dir @ ''/'' @ title"
    "drop (nat (rfind CHR ''.'' ?p)) ?p = ''.'' @ ext"
    unfolding dot stop by simp_all
  show ?thesis
    unfolding splitext_def Let_def name cut
    using title(2) dot sep by simp
qed

subsection \<open>Primitive steps\<close>

lemma trace_record_event [simp]: "trace (record_event ev w) = trace w @ [ev]"
  by (simp add: record_event_def)

lemma files_record_event [simp]: "files (record_event ev w) = files w"
  by (simp add: record_event_def)

lemma call_ok:
  "transport env (trace w) ev = None \<Longrightarrow> call env ev w = (Inr (), record_event ev w)"
  by (simp add: call_def)

lemma call_raises:
  "transport env (trace w) ev = Some e \<Longrightarrow> call env ev w = (Inl e, record_event ev w)"
  by (simp add: call_def)

lemma snd_call [simp]: "snd (call env ev w) = record_event ev w"
  by (simp add: call_def split: option.splits)

subsection \<open>The audio download\<close>

lemma download_audio_result:
  "download_audio env url chat_id w =
     (case transport env (trace w) (SendMessage chat_id DownloadingAudio) of
        Some e \<Rightarrow>
          (Inr None,
           record_event (Print (AudioDownloadError e))
             (record_event (SendMessage chat_id DownloadingAudio) w))
      | None \<Rightarrow>
          (let w1 = record_event (SendMessage chat_id DownloadingAudio) w;
               w2 = (record_event (ExtractAudio url) w1)
                      \<lparr>files := snd (ydl env (ExtractAudio url) (files w))\<rparr>
           in case fst (ydl env (ExtractAudio url) (files w)) of
                Inl e \<Rightarrow> (Inr None, record_event (Print (AudioDownloadError e)) w2)
              | Inr filename \<Rightarrow> (Inr (Some (fst (splitext filename) @ ''.mp3'')), w2)))"
  by (simp add: download_audio_def try_except_def seq_def call_def run_ydl_def ret_def
      print_def Let_def split: option.splits sum.splits)

text \<open>
  C7. Whenever \<open>download_audio\<close> returns a path, the path ends in \<open>.mp3\<close>: it is the
  root of the file name the download library reported, with \<open>.mp3\<close> appended. It does
  return that path when the transport accepts the status message and the library returns
  a file name. For a reported name \<open>dir/title.ext\<close> the path is \<open>dir/title.mp3\<close>
  whatever the extension \<open>ext\<close> (one without dot or slash; the title has no slash and is
  not made of dots only).
\<close>

theorem download_audio_mp3:
  "(fst (download_audio env url chat_id w) = Inr (Some path) \<longrightarrow>
      endswith path ''.mp3'' \<and>
      (\<exists>filename. fst (ydl env (ExtractAudio url) (files w)) = Inr filename \<and>
         path = fst (splitext filename) @ ''.mp3'')) \<and>
   (transport env (trace w) (SendMessage chat_id DownloadingAudio) = None \<and>
    fst (ydl env (ExtractAudio url) (files w)) = Inr filename \<longrightarrow>
      fst (download_audio env url chat_id w) = Inr (Some (fst (splitext filename) @ ''.mp3''))) \<and>
   (CHR ''.'' \<notin> set ext \<and> CHR ''/'' \<notin> set ext \<and> CHR ''/'' \<notin> set title \<and>
    (\<exists>x \<in> set title. x \<noteq> CHR ''.'') \<longrightarrow>
      fst (splitext (dir @ ''/'' @ title @ ''.'' @ ext)) @ ''.mp3'' = dir @ ''/'' @ title @ ''.mp3'')"
proof -
  have returned: "endswith path ''.mp3'' \<and>
      (\<exists>filename. fst (ydl env (ExtractAudio url) (files w)) = Inr filename \<and>
         path = fst (splitext filename) @ ''.mp3'')"
    if "fst (download_audio env url chat_id w) = Inr (Some path)"
  proof -
    from that obtain filename where
      "fst (ydl env (ExtractAudio url) (files w)) = Inr filename"
      "path = fst (splitext filename) @ ''.mp3''"
      unfolding download_audio_result
      by (auto simp: Let_def split: option.splits sum.splits)
    then show ?thesis
      using endswith_append by blast
  qed
  have succeeds: "fst (download_audio env url chat_id w) = Inr (Some (fst (splitext filename) @ ''.mp3''))"
    if "transport env (trace w) (SendMessage chat_id DownloadingAudio) = None"
       "fst (ydl env (ExtractAudio url) (files w)) = Inr filename"
    using that unfolding download_audio_result by (simp add: Let_def)
  have stem: "fst (splitext (dir @ ''/'' @ title @ ''.'' @ ext)) @ ''.mp3'' = dir @ ''/'' @ title @ ''.mp3''"
    if "CHR ''.'' \<notin> set ext \<and> CHR ''/'' \<notin> set ext \<and> CHR ''/'' \<notin> set title \<and>
        (\<exists>x \<in> set title. x \<noteq> CHR ''.'')"
    using that splitext_extension [of ext title dir] by simp
  from returned succeeds stem show ?thesis
    by blast
qed

theorem download_audio_mp3_witness:
  "fst (download_audio ex_env ''https://youtu.be/a_b'' 7 ex_world)
     = Inr (Some ''temp_downloads/Song.mp3'') \<and>
   endswith ''temp_downloads/Song.mp3'' ''.mp3'' \<and>
   fst (ydl ex_env (ExtractAudio ''https://youtu.be/a_b'') (files ex_world))
     = Inr ''temp_downloads/Song.webm'' \<and>
   fst (splitext (''temp_downloads'' @ ''/'' @ ''Song'' @ ''.'' @ ''webm'')) @ ''.mp3''
     = ''temp_downloads'' @ ''/'' @ ''Song'' @ ''.mp3''"
proof -
  have sent: "transport ex_env (trace ex_world) (SendMessage 7 DownloadingAudio) = None"
    by (simp add: ex_env_def)
  have got: "fst (ydl ex_env (ExtractAudio ''https://youtu.be/a_b'') (files ex_world))
     = Inr ''temp_downloads/Song.webm''"
    by (simp add: ex_env_def ex_ydl_def)
  have root: "fst (splitext ''temp_downloads/Song.webm'') @ ''.mp3'' = ''temp_downloads/Song.mp3''"
    by code_simp
  have stem: "CHR ''.'' \<notin> set ''webm'' \<and> CHR ''/'' \<notin> set ''webm'' \<and> CHR ''/'' \<notin> set ''Song'' \<and>
    (\<exists>x \<in> set ''Song''. x \<noteq> CHR ''.'')"
    by simp
  note inst = download_audio_mp3 [of ex_env "''https://youtu.be/a_b''" 7 ex_world
      "''temp_downloads/Song.mp3''" "''temp_downloads/Song.webm''" "''webm''" "''Song''"
      "''temp_downloads''"]
  from inst sent got have run: "fst (download_audio ex_env ''https://youtu.be/a_b'' 7 ex_world)
     = Inr (Some ''temp_downloads/Song.mp3'')"
    using root by simp
  with inst have "endswith ''temp_downloads/Song.mp3'' ''.mp3''"
    by blast
  moreover from inst stem
  have "fst (splitext (''temp_downloads'' @ ''/'' @ ''Song'' @ ''.'' @ ''webm'')) @ ''.mp3''
     = ''temp_downloads'' @ ''/'' @ ''Song'' @ ''.mp3''"
    by blast
  ultimately show ?thesis
    using run got by blast
qed

subsection \<open>A failing download\<close>

lemma download_video_raises:
  assumes "fst (ydl env (ExtractVideo url r) (files w)) = Inl e"
  shows "fst (download_video env url r chat_id w) = Inr None"
    and "filter is_delivery (trace (snd (download_video env url r chat_id w)))
         = filter is_delivery (trace w)"
    and "transport env (trace w) (SendMessage chat_id (DownloadingVideo r)) = None \<Longrightarrow>
         trace (snd (download_video env url r chat_id w)) =
           trace w @ [SendMessage chat_id (DownloadingVideo r), ExtractVideo url r,
                      Print (DownloadError e)]"
  using assms
  by (simp_all add: download_video_def try_except_def seq_def call_def run_ydl_def ret_def
      print_def is_delivery_def split: option.splits)

lemma download_audio_raises:
  assumes "fst (ydl env (ExtractAudio url) (files w)) = Inl e"
  shows "fst (download_audio env url chat_id w) = Inr None"
    and "filter is_delivery (trace (snd (download_audio env url chat_id w)))
         = filter is_delivery (trace w)"
    and "transport env (trace w) (SendMessage chat_id DownloadingAudio) = None \<Longrightarrow>
         trace (snd (download_audio env url chat_id w)) =
           trace w @ [SendMessage chat_id DownloadingAudio, ExtractAudio url,
                      Print (AudioDownloadError e)]"
  using assms
  by (simp_all add: download_audio_def try_except_def seq_def call_def run_ydl_def ret_def
      print_def is_delivery_def split: option.splits)

lemma button_callback_payload:
  assumes "CHR ''_'' \<notin> set quality"
  shows "button_callback env (payload quality url) chat_id =
     seq (call env QueryAnswer) (\<lambda>_.
       try_except
         (seq (call env (EditMessageText StartingDownload)) (\<lambda>_.
          seq (fetch env quality url chat_id) (\<lambda>filename.
          case filename of
            None \<Rightarrow> call env (EditMessageText DownloadFailed)
          | Some path \<Rightarrow>
              if path = [] then call env (EditMessageText DownloadFailed)
              else send_file env quality path chat_id)))
         (\<lambda>e. call env (EditMessageText (GenericError e))))"
proof -
  have "startswith (payload quality url) ''dl_''"
    by (simp add: startswith_def payload_def)
  then show ?thesis
    unfolding button_callback_def
    by (simp add: parse_callback_payload [OF assms])
qed

text \<open>The world in which the fetch starts when the two calls before it are accepted.\<close>

lemma no_path_no_delivery:
  assumes und: "CHR ''_'' \<notin> set quality"
    and nopath: "\<And>w2. files w2 = files w \<Longrightarrow>
       (\<forall>path. fst (fetch env quality url chat_id w2) \<noteq> Inr (Some path)) \<and>
       filter is_delivery (trace (snd (fetch env quality url chat_id w2)))
         = filter is_delivery (trace w2)"
  shows "filter is_delivery (trace (snd (button_callback env (payload quality url) chat_id w)))
         = filter is_delivery (trace w)"
proof -
  let ?w1 = "record_event QueryAnswer w"
  let ?w2 = "record_event (EditMessageText StartingDownload) ?w1"
  obtain r w3 where f: "fetch env quality url chat_id ?w2 = (r, w3)"
    by (cases "fetch env quality url chat_id ?w2")
  have "files ?w2 = files w" by simp
  from nopath [OF this] f have r: "\<forall>path. r \<noteq> Inr (Some path)"
    and t: "filter is_delivery (trace w3) = filter is_delivery (trace w)"
    by (simp_all add: is_delivery_def)
  show ?thesis
    unfolding button_callback_payload [OF und]
    using r t f
    by (auto simp: seq_def try_except_def call_def is_delivery_def
        split: option.splits sum.splits)
qed


lemma fetch_video:
  "quality \<noteq> ''audio'' \<Longrightarrow> py_int env quality = Some r \<Longrightarrow>
   fetch env quality url chat_id = download_video env url r chat_id"
  by (simp add: fetch_def)

lemma fetch_audio: "fetch env ''audio'' url chat_id = download_audio env url chat_id"
  by (simp add: fetch_def)

lemma call_reliable: "reliable env \<Longrightarrow> call env ev w = (Inr (), record_event ev w)"
  by (simp add: reliable_def call_def)

lemma failed_video_trace:
  assumes und: "CHR ''_'' \<notin> set quality"
    and video: "quality \<noteq> ''audio''" "py_int env quality = Some r"
    and raises: "fst (ydl env (ExtractVideo url r) (files w)) = Inl e"
    and rel: "reliable env"
  shows "trace (snd (button_callback env (payload quality url) chat_id w)) =
     trace w @ [QueryAnswer, EditMessageText StartingDownload,
                SendMessage chat_id (DownloadingVideo r), ExtractVideo url r,
                Print (DownloadError e), EditMessageText DownloadFailed]"
proof -
  let ?w2 = "record_event (EditMessageText StartingDownload) (record_event QueryAnswer w)"
  have at: "fst (ydl env (ExtractVideo url r) (files ?w2)) = Inl e"
    using raises by simp
  have accepted: "transport env (trace ?w2) (SendMessage chat_id (DownloadingVideo r)) = None"
    using rel by (simp add: reliable_def)
  obtain res w3 where f: "download_video env url r chat_id ?w2 = (res, w3)"
    by (cases "download_video env url r chat_id ?w2")
  from download_video_raises(1) [OF at, of chat_id] f have res: "res = Inr None"
    by simp
  from download_video_raises(3) [OF at accepted] f
  have w3: "trace w3 = trace ?w2 @ [SendMessage chat_id (DownloadingVideo r),
      ExtractVideo url r, Print (DownloadError e)]"
    by simp
  show ?thesis
    unfolding button_callback_payload [OF und] fetch_video [OF video]
    using f res w3
    by (simp add: seq_def try_except_def call_reliable [OF rel])
qed

lemma failed_audio_trace:
  assumes raises: "fst (ydl env (ExtractAudio url) (files w)) = Inl e"
    and rel: "reliable env"
  shows "trace (snd (button_callback env (payload ''audio'' url) chat_id w)) =
     trace w @ [QueryAnswer, EditMessageText StartingDownload,
                SendMessage chat_id DownloadingAudio, ExtractAudio url,
                Print (AudioDownloadError e), EditMessageText DownloadFailed]"
proof -
  let ?w2 = "record_event (EditMessageText StartingDownload) (record_event QueryAnswer w)"
  have und: "CHR ''_'' \<notin> set ''audio''" by simp
  have at: "fst (ydl env (ExtractAudio url) (files ?w2)) = Inl e"
    using raises by simp
  have accepted: "transport env (trace ?w2) (SendMessage chat_id DownloadingAudio) = None"
    using rel by (simp add: reliable_def)
  obtain res w3 where f: "download_audio env url chat_id ?w2 = (res, w3)"
    by (cases "download_audio env url chat_id ?w2")
  from download_audio_raises(1) [OF at, of chat_id] f have res: "res = Inr None"
    by simp
  from download_audio_raises(3) [OF at accepted] f
  have w3: "trace w3 = trace ?w2 @ [SendMessage chat_id DownloadingAudio,
      ExtractAudio url, Print (AudioDownloadError e)]"
    by simp
  show ?thesis
    unfolding button_callback_payload [OF und] fetch_audio
    using f res w3
    by (simp add: seq_def try_except_def call_reliable [OF rel])
qed

lemma failed_video_no_delivery:
  assumes und: "CHR ''_'' \<notin> set quality"
    and video: "quality \<noteq> ''audio''" "py_int env quality = Some r"
    and raises: "fst (ydl env (ExtractVideo url r) (files w)) = Inl e"
  shows "filter is_delivery (trace (snd (button_callback env (payload quality url) chat_id w)))
         = filter is_delivery (trace w)"
proof (rule no_path_no_delivery [OF und])
  fix w2 :: world
  assume "files w2 = files w"
  with raises have at: "fst (ydl env (ExtractVideo url r) (files w2)) = Inl e"
    by simp
  show "(\<forall>path. fst (fetch env quality url chat_id w2) \<noteq> Inr (Some path)) \<and>
       filter is_delivery (trace (snd (fetch env quality url chat_id w2)))
         = filter is_delivery (trace w2)"
    unfolding fetch_video [OF video]
    using download_video_raises(1,2) [OF at, of chat_id] by simp
qed

lemma failed_audio_no_delivery:
  assumes raises: "fst (ydl env (ExtractAudio url) (files w)) = Inl e"
  shows "filter is_delivery (trace (snd (button_callback env (payload ''audio'' url) chat_id w)))
         = filter is_delivery (trace w)"
proof (rule no_path_no_delivery)
  show "CHR ''_'' \<notin> set ''audio''" by simp
next
  fix w2 :: world
  assume "files w2 = files w"
  with raises have at: "fst (ydl env (ExtractAudio url) (files w2)) = Inl e"
    by simp
  show "(\<forall>path. fst (fetch env ''audio'' url chat_id w2) \<noteq> Inr (Some path)) \<and>
       filter is_delivery (trace (snd (fetch env ''audio'' url chat_id w2)))
         = filter is_delivery (trace w2)"
    unfolding fetch_audio
    using download_audio_raises(1,2) [OF at, of chat_id] by simp
qed

text \<open>
  C8. When the download library raises, for a video token that \<open>int\<close> accepts and for
  the audio token alike: the fetch returns \<open>None\<close>; the handler makes no call that opens
  or sends a file, whatever the transport does; and when the transport accepts every
  call, the handler's calls are exactly the answer, the starting notice, the status
  message, the download, the printed error and, last, the download-failed message.
\<close>

theorem download_failure_reported:
  "(CHR ''_'' \<notin> set quality \<and> quality \<noteq> ''audio'' \<and> py_int env quality = Some r \<and>
    fst (ydl env (ExtractVideo url r) (files w)) = Inl e \<longrightarrow>
      fst (download_video env url r chat_id w) = Inr None \<and>
      filter is_delivery (trace (snd (button_callback env (payload quality url) chat_id w)))
        = filter is_delivery (trace w) \<and>
      (reliable env \<longrightarrow>
         trace (snd (button_callback env (payload quality url) chat_id w)) =
           trace w @ [QueryAnswer, EditMessageText StartingDownload,
                      SendMessage chat_id (DownloadingVideo r), ExtractVideo url r,
                      Print (DownloadError e), EditMessageText DownloadFailed])) \<and>
   (fst (ydl env (ExtractAudio url) (files w)) = Inl e \<longrightarrow>
      fst (download_audio env url chat_id w) = Inr None \<and>
      filter is_delivery (trace (snd (button_callback env (payload ''audio'' url) chat_id w)))
        = filter is_delivery (trace w) \<and>
      (reliable env \<longrightarrow>
         trace (snd (button_callback env (payload ''audio'' url) chat_id w)) =
           trace w @ [QueryAnswer, EditMessageText StartingDownload,
                      SendMessage chat_id DownloadingAudio, ExtractAudio url,
                      Print (AudioDownloadError e), EditMessageText DownloadFailed]))"
proof -
  have video:
    "fst (download_video env url r chat_id w) = Inr None \<and>
     filter is_delivery (trace (snd (button_callback env (payload quality url) chat_id w)))
        = filter is_delivery (trace w) \<and>
     (reliable env \<longrightarrow>
         trace (snd (button_callback env (payload quality url) chat_id w)) =
           trace w @ [QueryAnswer, EditMessageText StartingDownload,
                      SendMessage chat_id (DownloadingVideo r), ExtractVideo url r,
                      Print (DownloadError e), EditMessageText DownloadFailed])"
    if "CHR ''_'' \<notin> set quality" "quality \<noteq> ''audio''" "py_int env quality = Some r"
      "fst (ydl env (ExtractVideo url r) (files w)) = Inl e"
    using download_video_raises(1) [OF that(4)] failed_video_no_delivery [OF that]
      failed_video_trace [OF that] by blast
  have audio:
    "fst (download_audio env url chat_id w) = Inr None \<and>
     filter is_delivery (trace (snd (button_callback env (payload ''audio'' url) chat_id w)))
        = filter is_delivery (trace w) \<and>
     (reliable env \<longrightarrow>
         trace (snd (button_callback env (payload ''audio'' url) chat_id w)) =
           trace w @ [QueryAnswer, EditMessageText StartingDownload,
                      SendMessage chat_id DownloadingAudio, ExtractAudio url,
                      Print (AudioDownloadError e), EditMessageText DownloadFailed])"
    if "fst (ydl env (ExtractAudio url) (files w)) = Inl e"
    using download_audio_raises(1) [OF that] failed_audio_no_delivery [OF that]
      failed_audio_trace [OF that] by blast
  from video audio show ?thesis
    by blast
qed

theorem download_failure_reported_witness:
  "CHR ''_'' \<notin> set ''720'' \<and> py_int ex_env_offline ''720'' = Some 720 \<and>
   fst (ydl ex_env_offline (ExtractVideo ''https://youtu.be/a_b'' 720) (files ex_world))
     = Inl (Raised ''network unreachable'') \<and>
   reliable ex_env_offline \<and>
   fst (download_video ex_env_offline ''https://youtu.be/a_b'' 720 7 ex_world) = Inr None \<and>
   trace (snd (button_callback ex_env_offline ''dl_720_https://youtu.be/a_b'' 7 ex_world)) =
     [QueryAnswer, EditMessageText StartingDownload,
      SendMessage 7 (DownloadingVideo 720), ExtractVideo ''https://youtu.be/a_b'' 720,
      Print (DownloadError (Raised ''network unreachable'')), EditMessageText DownloadFailed]"
proof -
  have hyps: "CHR ''_'' \<notin> set ''720''" "''720'' \<noteq> ''audio''"
    "py_int ex_env_offline ''720'' = Some 720"
    "fst (ydl ex_env_offline (ExtractVideo ''https://youtu.be/a_b'' 720) (files ex_world))
       = Inl (Raised ''network unreachable'')"
    "reliable ex_env_offline"
    by (simp_all add: ex_env_offline_def ex_py_int_def reliable_def)
  have data: "payload ''720'' ''https://youtu.be/a_b'' = ''dl_720_https://youtu.be/a_b''"
    by (simp add: payload_def)
  have start: "trace ex_world = []"
    by (simp add: ex_world_def)
  from hyps show ?thesis
    using download_failure_reported [of "''720''" ex_env_offline 720 "''https://youtu.be/a_b''"
        ex_world "Raised ''network unreachable''" 7]
    by (simp add: data start)
qed

subsection \<open>A quality token that is not a number\<close>

lemma invalid_quality_run:
  assumes und: "CHR ''_'' \<notin> set quality"
    and bad: "quality \<noteq> ''audio''" "py_int env quality = None"
  shows "button_callback env (payload quality url) chat_id w =
     (let w1 = record_event QueryAnswer w;
          w2 = record_event (EditMessageText StartingDownload) w1
      in case transport env (trace w) QueryAnswer of
           Some e \<Rightarrow> (Inl e, w1)
         | None \<Rightarrow>
             (case transport env (trace w1) (EditMessageText StartingDownload) of
                Some e \<Rightarrow> call env (EditMessageText (GenericError e)) w2
              | None \<Rightarrow> call env (EditMessageText (GenericError (ValueError quality))) w2))"
  unfolding button_callback_payload [OF und]
  using bad
  by (simp add: seq_def try_except_def call_def fetch_def raise_def Let_def
      split: option.splits)

text \<open>
  C10. For a payload whose quality token is not \<open>audio\<close> and on which \<open>int\<close> raises (the
  token \<open>unknown\<close> of a menu entry without height is one): the handler makes no call that
  starts a download and none that opens or sends a file, and leaves the files as they are;
  when \<open>query.answer()\<close> is accepted its last call is the generic error message; and when
  the transport accepts every call, its calls are exactly the answer, the starting notice
  and the generic error message carrying the \<open>ValueError\<close>.
\<close>

theorem invalid_quality_generic_error:
  "CHR ''_'' \<notin> set quality \<and> quality \<noteq> ''audio'' \<and> py_int env quality = None \<longrightarrow>
     filter is_download (trace (snd (button_callback env (payload quality url) chat_id w)))
       = filter is_download (trace w) \<and>
     filter is_delivery (trace (snd (button_callback env (payload quality url) chat_id w)))
       = filter is_delivery (trace w) \<and>
     files (snd (button_callback env (payload quality url) chat_id w)) = files w \<and>
     (transport env (trace w) QueryAnswer = None \<longrightarrow>
        (\<exists>e. last (trace (snd (button_callback env (payload quality url) chat_id w)))
               = EditMessageText (GenericError e))) \<and>
     (reliable env \<longrightarrow>
        trace (snd (button_callback env (payload quality url) chat_id w)) =
          trace w @ [QueryAnswer, EditMessageText StartingDownload,
                     EditMessageText (GenericError (ValueError quality))])"
proof (intro impI, elim conjE)
  assume und: "CHR ''_'' \<notin> set quality"
    and bad: "quality \<noteq> ''audio''" "py_int env quality = None"
  let ?w' = "snd (button_callback env (payload quality url) chat_id w)"
  note run = invalid_quality_run [OF und bad, of url chat_id w]
  have downloads: "filter is_download (trace ?w') = filter is_download (trace w)"
    unfolding run by (simp add: Let_def is_download_def split: option.splits)
  have deliveries: "filter is_delivery (trace ?w') = filter is_delivery (trace w)"
    unfolding run by (simp add: Let_def is_delivery_def split: option.splits)
  have same_files: "files ?w' = files w"
    unfolding run by (simp add: Let_def split: option.splits)
  have ends: "\<exists>e. last (trace ?w') = EditMessageText (GenericError e)"
    if "transport env (trace w) QueryAnswer = None"
    unfolding run using that by (simp add: Let_def split: option.splits)
  have exact: "trace ?w' = trace w @ [QueryAnswer, EditMessageText StartingDownload,
                     EditMessageText (GenericError (ValueError quality))]"
    if "reliable env"
    unfolding run using that by (simp add: Let_def reliable_def)
  from downloads deliveries same_files ends exact
  show "filter is_download (trace ?w') = filter is_download (trace w) \<and>
     filter is_delivery (trace ?w') = filter is_delivery (trace w) \<and>
     files ?w' = files w \<and>
     (transport env (trace w) QueryAnswer = None \<longrightarrow>
        (\<exists>e. last (trace ?w') = EditMessageText (GenericError e))) \<and>
     (reliable env \<longrightarrow>
        trace ?w' = trace w @ [QueryAnswer, EditMessageText StartingDownload,
                     EditMessageText (GenericError (ValueError quality))])"
    by blast
qed


theorem invalid_quality_generic_error_witness:
  "str_pyval (PyStr ''unknown'') = ''unknown'' \<and>
   CHR ''_'' \<notin> set ''unknown'' \<and> py_int ex_env ''unknown'' = None \<and> reliable ex_env \<and>
   trace (snd (button_callback ex_env ''dl_unknown_https://youtu.be/a_b'' 7 ex_world)) =
     [QueryAnswer, EditMessageText StartingDownload,
      EditMessageText (GenericError (ValueError ''unknown''))] \<and>
   files (snd (button_callback ex_env ''dl_unknown_https://youtu.be/a_b'' 7 ex_world)) = {}"
proof -
  have hyps: "CHR ''_'' \<notin> set ''unknown''" "''unknown'' \<noteq> ''audio''"
    "py_int ex_env ''unknown'' = None" "reliable ex_env"
    by (simp_all add: ex_env_def ex_py_int_def reliable_def)
  have data: "payload ''unknown'' ''https://youtu.be/a_b'' = ''dl_unknown_https://youtu.be/a_b''"
    by (simp add: payload_def)
  have start: "trace ex_world = []" "files ex_world = {}"
    by (simp_all add: ex_world_def)
  from hyps show ?thesis
    using invalid_quality_generic_error [of "''unknown''" ex_env "''https://youtu.be/a_b''" 7 ex_world]
    by (simp add: data start str_pyval_def)
qed

subsection \<open>Sending the file\<close>

lemma send_file_send_call:
  "send_file env quality filename chat_id =
     try_except
       (seq (seq (open_file filename) (\<lambda>_. call env (send_call quality filename chat_id)))
          (\<lambda>_.
        seq (os_remove filename) (\<lambda>_.
        call env DeleteMessage)))
       (\<lambda>e. seq (call env (EditMessageText (ErrorSendingFile e))) (\<lambda>_.
            seq (os_path_exists filename) (\<lambda>exists.
            if exists then os_remove filename else ret ())))"
  by (simp add: send_file_def send_call_def)

lemma send_file_removes:
  assumes "edits_accepted env"
  shows "filename \<notin> files (snd (send_file env quality filename chat_id w))"
  unfolding send_file_send_call
  using assms
  by (auto simp: edits_accepted_def try_except_def seq_def call_def open_file_def
      os_remove_def os_path_exists_def ret_def split: option.splits)

lemma send_file_failure_trace:
  assumes "edits_accepted env" "filename \<in> files w"
    and "transport env (trace w @ [OpenFile filename]) (send_call quality filename chat_id) = Some e"
  shows "trace (snd (send_file env quality filename chat_id w)) =
     trace w @ [OpenFile filename, send_call quality filename chat_id,
                EditMessageText (ErrorSendingFile e), PathExists filename, Remove filename]"
  unfolding send_file_send_call
  using assms
  by (simp add: edits_accepted_def try_except_def seq_def call_def open_file_def
      os_remove_def os_path_exists_def ret_def)

lemma send_file_success_trace:
  assumes "filename \<in> files w"
    and "transport env (trace w @ [OpenFile filename]) (send_call quality filename chat_id) = None"
    and "transport env (trace w @ [OpenFile filename, send_call quality filename chat_id,
           Remove filename]) DeleteMessage = None"
  shows "trace (snd (send_file env quality filename chat_id w)) =
     trace w @ [OpenFile filename, send_call quality filename chat_id,
                Remove filename, DeleteMessage] \<and>
     filename \<notin> files (snd (send_file env quality filename chat_id w))"
  unfolding send_file_send_call
  using assms
  by (simp add: try_except_def seq_def call_def open_file_def
      os_remove_def os_path_exists_def ret_def)

text \<open>
  What \<open>send_file\<close> does when the transport accepts the error report: the file is no
  longer on disk afterwards; on a send failure the calls are the open, the send, the
  report, the existence test and the removal, in that order; on success they are the
  open, the send, the removal and the deletion of the menu message.
\<close>

lemma send_file_when_report_accepted:
  "(edits_accepted env \<longrightarrow>
      filename \<notin> files (snd (send_file env quality filename chat_id w))) \<and>
   (edits_accepted env \<and> filename \<in> files w \<and>
    transport env (trace w @ [OpenFile filename]) (send_call quality filename chat_id) = Some e \<longrightarrow>
      trace (snd (send_file env quality filename chat_id w)) =
        trace w @ [OpenFile filename, send_call quality filename chat_id,
                   EditMessageText (ErrorSendingFile e), PathExists filename, Remove filename]) \<and>
   (filename \<in> files w \<and>
    transport env (trace w @ [OpenFile filename]) (send_call quality filename chat_id) = None \<and>
    transport env (trace w @ [OpenFile filename, send_call quality filename chat_id,
           Remove filename]) DeleteMessage = None \<longrightarrow>
      trace (snd (send_file env quality filename chat_id w)) =
        trace w @ [OpenFile filename, send_call quality filename chat_id,
                   Remove filename, DeleteMessage] \<and>
      filename \<notin> files (snd (send_file env quality filename chat_id w)))"
  using send_file_removes send_file_failure_trace send_file_success_trace
  by blast

lemmas run_defs = seq_def try_except_def call_def fetch_def download_video_def run_ydl_def
  ret_def raise_def print_def open_file_def os_remove_def os_path_exists_def os_rename_def
  send_file_def record_event_def endswith_def

text \<open>
  C9. The source does not do what the claim says. In the handler of a failed send (lines
  241 to 244) the error report is the first call and the cleanup comes after it: with a
  transport that fails the send and accepts the report, the calls are the open, the send,
  the report, the existence test and the removal. With a connection that is lost from
  the send on, the report raises as well, the cleanup is never reached, and the downloaded
  file is still on disk when the handler ends, both for \<open>send_file\<close> alone and for the
  whole of \<open>button_callback\<close> on the payload of a 720 button.
\<close>

theorem cleanup_skipped_when_report_raises:
  "trace (snd (send_file ex_env_send_fails ''720'' ''temp_downloads/T.mp4'' 7 ex_world_file)) =
     [OpenFile ''temp_downloads/T.mp4'', SendVideo 7 ''temp_downloads/T.mp4'' ''720'',
      EditMessageText (ErrorSendingFile (Raised ''timed out'')),
      PathExists ''temp_downloads/T.mp4'', Remove ''temp_downloads/T.mp4''] \<and>
   trace (snd (send_file ex_env_connection_lost ''720'' ''temp_downloads/T.mp4'' 7
      ex_world_file)) =
     [OpenFile ''temp_downloads/T.mp4'', SendVideo 7 ''temp_downloads/T.mp4'' ''720'',
      EditMessageText (ErrorSendingFile (Raised ''timed out''))] \<and>
   ''temp_downloads/T.mp4''
     \<in> files (snd (send_file ex_env_connection_lost ''720'' ''temp_downloads/T.mp4'' 7
          ex_world_file)) \<and>
   trace (snd (button_callback ex_env_connection_lost ''dl_720_https://youtu.be/a_b'' 7
      ex_world)) =
     [QueryAnswer, EditMessageText StartingDownload, SendMessage 7 (DownloadingVideo 720),
      ExtractVideo ''https://youtu.be/a_b'' 720,
      OpenFile ''temp_downloads/T.mp4'', SendVideo 7 ''temp_downloads/T.mp4'' ''720'',
      EditMessageText (ErrorSendingFile (Raised ''timed out'')),
      EditMessageText (GenericError (Raised ''timed out''))] \<and>
   ''temp_downloads/T.mp4''
     \<in> files (snd (button_callback ex_env_connection_lost ''dl_720_https://youtu.be/a_b'' 7
          ex_world))"
proof -
  have reported: "trace (snd (send_file ex_env_send_fails ''720'' ''temp_downloads/T.mp4'' 7
      ex_world_file)) =
     [OpenFile ''temp_downloads/T.mp4'', SendVideo 7 ''temp_downloads/T.mp4'' ''720'',
      EditMessageText (ErrorSendingFile (Raised ''timed out'')),
      PathExists ''temp_downloads/T.mp4'', Remove ''temp_downloads/T.mp4'']"
    by (simp add: run_defs ex_env_send_fails_def ex_world_file_def)
  have lost: "trace (snd (send_file ex_env_connection_lost ''720'' ''temp_downloads/T.mp4'' 7
      ex_world_file)) =
     [OpenFile ''temp_downloads/T.mp4'', SendVideo 7 ''temp_downloads/T.mp4'' ''720'',
      EditMessageText (ErrorSendingFile (Raised ''timed out''))] \<and>
   ''temp_downloads/T.mp4''
     \<in> files (snd (send_file ex_env_connection_lost ''720'' ''temp_downloads/T.mp4'' 7
          ex_world_file))"
    by (simp add: run_defs ex_env_connection_lost_def ex_world_file_def is_send_def)
  have und: "CHR ''_'' \<notin> set ''720''"
    by simp
  have data: "''dl_720_https://youtu.be/a_b'' = payload ''720'' ''https://youtu.be/a_b''"
    by (simp add: payload_def)
  have handler: "trace (snd (button_callback ex_env_connection_lost
      (payload ''720'' ''https://youtu.be/a_b'') 7 ex_world)) =
     [QueryAnswer, EditMessageText StartingDownload, SendMessage 7 (DownloadingVideo 720),
      ExtractVideo ''https://youtu.be/a_b'' 720,
      OpenFile ''temp_downloads/T.mp4'', SendVideo 7 ''temp_downloads/T.mp4'' ''720'',
      EditMessageText (ErrorSendingFile (Raised ''timed out'')),
      EditMessageText (GenericError (Raised ''timed out''))] \<and>
   ''temp_downloads/T.mp4''
     \<in> files (snd (button_callback ex_env_connection_lost
          (payload ''720'' ''https://youtu.be/a_b'') 7 ex_world))"
    unfolding button_callback_payload [OF und]
    by (simp add: run_defs ex_env_connection_lost_def ex_world_def is_send_def ex_ydl_def
        ex_py_int_def)
  from reported lost handler show ?thesis
    unfolding data by blast
qed

end
